theory Spec2Isabelle
  imports Main
begin

section \<open>Identity reconciliation: the contact service\<close>

text \<open>
  A shallow embedding of the contact service of the BiteSpeed API
  (\<^verbatim>\<open>bitespeed-api/src/services/contactService.ts\<close>): the table of contacts, the
  five store operations the service calls through Prisma, the view builder
  \<^verbatim>\<open>buildConsolidatedResponse\<close> and the operation \<^verbatim>\<open>identifyContact\<close>.
\<close>

subsection \<open>Contacts and the table\<close>

datatype link_precedence = Primary | Secondary

text \<open>
  Modelled from the spec: the declaration of the \<^verbatim>\<open>Contact\<close> table (the Prisma schema
  file) is not among the sources. A row has the fields the service reads and writes
  (\<^verbatim>\<open>id\<close>, \<^verbatim>\<open>email\<close>, \<^verbatim>\<open>phoneNumber\<close>, \<^verbatim>\<open>linkedId\<close>, \<^verbatim>\<open>linkPrecedence\<close>, \<^verbatim>\<open>createdAt\<close>,
  \<^verbatim>\<open>deletedAt\<close>), which are the fields of the specification's contact, and
  \<^verbatim>\<open>updatedAt\<close>. The field \<^verbatim>\<open>id\<close> is written \<open>id_c\<close>, since \<open>id\<close> is the identity function
  of HOL. Times are milliseconds, as \<^verbatim>\<open>new Date(c.createdAt).getTime()\<close> reads them.
\<close>

record contact =
  id_c :: nat
  email :: "string option"
  phoneNumber :: "string option"
  linkedId :: "nat option"
  linkPrecedence :: link_precedence
  createdAt :: nat
  updatedAt :: nat
  deletedAt :: "nat option"

text \<open>
  Modelled from the spec: the contact store of the specification (its section 6),
  in place of the database behind Prisma. The table is its rows in insertion order
  and the next value of the autoincrement sequence of \<^verbatim>\<open>id\<close>; the store fills in
  \<^verbatim>\<open>id\<close>, \<^verbatim>\<open>createdAt\<close> and \<^verbatim>\<open>updatedAt\<close>. As in the specification, an insert accepts any
  email and phone number: no column but \<^verbatim>\<open>id\<close> is unique. (The table sketched in the
  repository's README marks \<^verbatim>\<open>email\<close> and \<^verbatim>\<open>phoneNumber\<close> unique, and has no
  \<^verbatim>\<open>deletedAt\<close>, which every query of the service reads; it is not taken as the table
  the service runs on. Under unique columns \<^verbatim>\<open>createSecondaryContact\<close> would be
  rejected on every call that the service makes with one known and one new value.)
\<close>

record store =
  rows :: "contact list"
  next_id :: nat

definition empty_store :: store where
  "empty_store = \<lparr>rows = [], next_id = 1\<rparr>"

subsection \<open>JavaScript values\<close>

text \<open>
  An optional string is \<open>None\<close> for \<^verbatim>\<open>null\<close> and \<^verbatim>\<open>undefined\<close>. In a condition
  (\<^verbatim>\<open>email ? ... : ...\<close>, \<^verbatim>\<open>!email\<close>, \<^verbatim>\<open>filter(Boolean)\<close>) a string counts as true
  when it is neither missing nor empty.
\<close>

definition truthy :: "string option \<Rightarrow> bool" where
  "truthy s = (case s of None \<Rightarrow> False | Some v \<Rightarrow> v \<noteq> [])"

text \<open>\<^verbatim>\<open>email || null\<close>\<close>

definition or_null :: "string option \<Rightarrow> string option" where
  "or_null s = (if truthy s then s else None)"

text \<open>\<^verbatim>\<open>email ? [email] : []\<close>\<close>

definition singleton_if :: "string option \<Rightarrow> string list" where
  "singleton_if s = (case s of None \<Rightarrow> [] | Some v \<Rightarrow> if v \<noteq> [] then [v] else [])"

text \<open>
  A JavaScript \<^verbatim>\<open>Set\<close> keeps its members in insertion order, and \<^verbatim>\<open>Array.from\<close>
  returns them in that order: a list without duplicates, \<^verbatim>\<open>add\<close> appending a value
  that is not a member yet.
\<close>

definition set_add :: "'a list \<Rightarrow> 'a \<Rightarrow> 'a list" where
  "set_add s x = (if x \<in> set s then s else s @ [x])"

subsection \<open>The store operations\<close>

text \<open>
  \<^verbatim>\<open>findMany\<close> with \<^verbatim>\<open>orderBy: { createdAt: 'asc' }\<close>: the rows that satisfy the
  \<^verbatim>\<open>where\<close> clause, sorted by \<open>createdAt\<close>. The sort is stable, so rows of equal
  \<open>createdAt\<close> come in insertion order (the database leaves their order open).
\<close>

definition findContactsByEmailOrPhone ::
  "string option \<Rightarrow> string option \<Rightarrow> store \<Rightarrow> contact list" where
  "findContactsByEmailOrPhone reqEmail reqPhone st =
     sort_key createdAt
       (filter (\<lambda>c. deletedAt c = None \<and>
                  ((truthy reqEmail \<and> email c = reqEmail) \<or>
                   (truthy reqPhone \<and> phoneNumber c = reqPhone)))
          (rows st))"

definition findLinkedContacts :: "nat \<Rightarrow> store \<Rightarrow> contact list" where
  "findLinkedContacts primaryContactId' st =
     sort_key createdAt
       (filter (\<lambda>c. (id_c c = primaryContactId' \<or> linkedId c = Some primaryContactId') \<and>
                  deletedAt c = None)
          (rows st))"

text \<open>
  \<^verbatim>\<open>create\<close>: the new row takes the next id and the time of the call, and is returned
  with the table.
\<close>

definition createPrimaryContact ::
  "nat \<Rightarrow> string option \<Rightarrow> string option \<Rightarrow> store \<Rightarrow> contact \<times> store" where
  "createPrimaryContact now e p st =
     (let c = \<lparr>id_c = next_id st, email = e, phoneNumber = p, linkedId = None,
                linkPrecedence = Primary, createdAt = now, updatedAt = now,
                deletedAt = None\<rparr>
      in (c, \<lparr>rows = rows st @ [c], next_id = Suc (next_id st)\<rparr>))"

definition createSecondaryContact ::
  "nat \<Rightarrow> string option \<Rightarrow> string option \<Rightarrow> nat \<Rightarrow> store \<Rightarrow> contact \<times> store" where
  "createSecondaryContact now e p primaryContactId' st =
     (let c = \<lparr>id_c = next_id st, email = e, phoneNumber = p,
                linkedId = Some primaryContactId', linkPrecedence = Secondary,
                createdAt = now, updatedAt = now, deletedAt = None\<rparr>
      in (c, \<lparr>rows = rows st @ [c], next_id = Suc (next_id st)\<rparr>))"

text \<open>
  \<^verbatim>\<open>update\<close> with \<^verbatim>\<open>where: { id: contactId }\<close>. The service passes the id of a row
  it has just read, so the row exists.
\<close>

definition demoted :: "nat \<Rightarrow> nat \<Rightarrow> contact \<Rightarrow> contact" where
  "demoted now newLinkedId c =
     c\<lparr>linkedId := Some newLinkedId, linkPrecedence := Secondary, updatedAt := now\<rparr>"

definition updateToSecondaryContact :: "nat \<Rightarrow> nat \<Rightarrow> nat \<Rightarrow> store \<Rightarrow> store" where
  "updateToSecondaryContact now contactId newLinkedId st =
     st\<lparr>rows := map (\<lambda>c. if id_c c = contactId then demoted now newLinkedId c else c)
                    (rows st)\<rparr>"

subsection \<open>The view builder\<close>

record ConsolidatedContact =
  primaryContactId :: nat
  emails :: "string list"
  phoneNumbers :: "string list"
  secondaryContactIds :: "nat list"

text \<open>
  What the service throws: \<open>InvalidRequest\<close> is
  \<^verbatim>\<open>Error('Either email or phoneNumber must be provided')\<close>, \<open>EmptyCluster\<close> is
  \<^verbatim>\<open>Error('No contacts provided')\<close>, and \<open>TypeError\<close> is what reading \<^verbatim>\<open>.id\<close> of
  \<^verbatim>\<open>undefined\<close> raises.
\<close>

datatype error = InvalidRequest | EmptyCluster | TypeError

text \<open>
  The loop of \<^verbatim>\<open>buildConsolidatedResponse\<close> over the contacts, with its three
  accumulators: the set of emails, the set of phone numbers and the array of
  secondary ids.
\<close>

fun collect ::
  "contact list \<Rightarrow> string list \<times> string list \<times> nat list \<Rightarrow>
   string list \<times> string list \<times> nat list" where
  "collect [] acc = acc"
| "collect (c # cs) (es, ps, ids) =
     collect cs
       (case email c of
          None \<Rightarrow> es
        | Some e \<Rightarrow> if e \<noteq> [] then set_add es e else es,
        case phoneNumber c of
          None \<Rightarrow> ps
        | Some p \<Rightarrow> if p \<noteq> [] then set_add ps p else ps,
        if linkPrecedence c = Secondary then ids @ [id_c c] else ids)"

definition buildConsolidatedResponse :: "contact list \<Rightarrow> error + ConsolidatedContact" where
  "buildConsolidatedResponse contacts =
     (case contacts of
        [] \<Rightarrow> Inl EmptyCluster
      | first # _ \<Rightarrow>
          (let primaryContact =
                 (case find (\<lambda>c. linkPrecedence c = Primary) contacts of
                    Some p \<Rightarrow> p
                  | None \<Rightarrow> first);
               (es, ps, ids) = collect contacts ([], [], [])
           in Inr \<lparr>primaryContactId = id_c primaryContact, emails = es,
                    phoneNumbers = ps, secondaryContactIds = ids\<rparr>))"

subsection \<open>The operation\<close>

text \<open>
  \<^verbatim>\<open>identifyContact\<close> at the time \<open>now\<close>, on the request's \<^verbatim>\<open>email\<close> and
  \<^verbatim>\<open>phoneNumber\<close>. It returns what the caller receives (the view, or the error
  thrown) and the table it leaves: nothing is rolled back when it throws.
  With no primary among the matched contacts \<^verbatim>\<open>primaryContacts[0]\<close> is
  \<^verbatim>\<open>undefined\<close>, the demotion loop does not run, and the first use of
  \<^verbatim>\<open>oldestPrimary.id\<close> (an argument of \<^verbatim>\<open>createSecondaryContact\<close> or of
  \<^verbatim>\<open>findLinkedContacts\<close>) raises before any write.
\<close>

definition identifyContact ::
  "nat \<Rightarrow> string option \<Rightarrow> string option \<Rightarrow> store \<Rightarrow>
   (error + ConsolidatedContact) \<times> store" where
  "identifyContact now reqEmail reqPhone st =
     (if \<not> truthy reqEmail \<and> \<not> truthy reqPhone then (Inl InvalidRequest, st)
      else
        let existingContacts = findContactsByEmailOrPhone reqEmail reqPhone st in
        if existingContacts = [] then
          (let (newContact, st1) =
                 createPrimaryContact now (or_null reqEmail) (or_null reqPhone) st
           in (Inr \<lparr>primaryContactId = id_c newContact,
                     emails = singleton_if reqEmail,
                     phoneNumbers = singleton_if reqPhone,
                     secondaryContactIds = []\<rparr>, st1))
        else
          let primaryContacts =
                sort_key createdAt
                  (filter (\<lambda>c. linkPrecedence c = Primary) existingContacts);
              existingEmails = filter truthy (map email existingContacts);
              existingPhones = filter truthy (map phoneNumber existingContacts);
              hasNewEmail = (truthy reqEmail \<and> reqEmail \<notin> set existingEmails);
              hasNewPhone = (truthy reqPhone \<and> reqPhone \<notin> set existingPhones)
          in
            (case primaryContacts of
               [] \<Rightarrow> (Inl TypeError, st)
             | oldestPrimary # others \<Rightarrow>
                 (let st1 = foldl (\<lambda>s c. updateToSecondaryContact now (id_c c)
                                            (id_c oldestPrimary) s) st others;
                      st2 = (if hasNewEmail \<or> hasNewPhone
                             then snd (createSecondaryContact now (or_null reqEmail)
                                         (or_null reqPhone) (id_c oldestPrimary) st1)
                             else st1);
                      allContacts = findLinkedContacts (id_c oldestPrimary) st2
                  in (buildConsolidatedResponse allContacts, st2))))"

text \<open>
  A sequence of calls, each given as its time, email and phone number: the table
  after the last call, or \<open>None\<close> when one of the calls throws.
\<close>

fun identify_all :: "(nat \<times> string option \<times> string option) list \<Rightarrow> store \<Rightarrow> store option" where
  "identify_all [] st = Some st"
| "identify_all ((now, e, p) # calls) st =
     (case identifyContact now e p st of
        (Inr v, st') \<Rightarrow> identify_all calls st'
      | (Inl err, st') \<Rightarrow> None)"

subsection \<open>The view the specification describes\<close>

text \<open>
  The values a list holds, each at its first occurrence and none of \<open>seen\<close>.
\<close>

fun first_occurrences :: "'a list \<Rightarrow> 'a list \<Rightarrow> 'a list" where
  "first_occurrences seen [] = []"
| "first_occurrences seen (x # xs) =
     (if x \<in> set seen then first_occurrences seen xs
      else x # first_occurrences (x # seen) xs)"

text \<open>The non-empty values of a field, contact by contact.\<close>

definition values_of :: "(contact \<Rightarrow> string option) \<Rightarrow> contact list \<Rightarrow> string list" where
  "values_of field cs = concat (map (\<lambda>c. singleton_if (field c)) cs)"

text \<open>
  The specification's \<^verbatim>\<open>emails\<close> and \<^verbatim>\<open>phoneNumbers\<close>, from its words and not from
  the code: the primary's own value first if it has one, followed by the remaining
  distinct values in ascending \<open>createdAt\<close> order of the owning contact, each value
  once.
\<close>

definition spec_values :: "(contact \<Rightarrow> string option) \<Rightarrow> contact list \<Rightarrow> string list" where
  "spec_values field cluster =
     (let own = (case find (\<lambda>c. linkPrecedence c = Primary) cluster of
                   None \<Rightarrow> []
                 | Some p \<Rightarrow> singleton_if (field p));
          by_age = first_occurrences [] (values_of field (sort_key createdAt cluster))
      in own @ filter (\<lambda>v. v \<notin> set own) by_age)"

text \<open>
  The specification's \<^verbatim>\<open>secondaryContactIds\<close>: the ids of all non-primary members,
  ascending by \<open>createdAt\<close>.
\<close>

definition spec_secondaryContactIds :: "contact list \<Rightarrow> nat list" where
  "spec_secondaryContactIds cluster =
     map id_c (filter (\<lambda>c. linkPrecedence c \<noteq> Primary) (sort_key createdAt cluster))"

text \<open>A field of the request is absent when the request does not carry it.\<close>

definition absent :: "string option \<Rightarrow> bool" where
  "absent s = (s = None)"

subsection \<open>Example clusters\<close>

text \<open>
  A primary with two secondaries, in the order of their creation.
\<close>

definition cluster_abc :: "contact list" where
  "cluster_abc =
     [\<lparr>id_c = 1, email = Some ''a@x.com'', phoneNumber = Some ''111'', linkedId = None,
       linkPrecedence = Primary, createdAt = 1, updatedAt = 1, deletedAt = None\<rparr>,
      \<lparr>id_c = 2, email = Some ''a@x.com'', phoneNumber = Some ''222'', linkedId = Some 1,
       linkPrecedence = Secondary, createdAt = 2, updatedAt = 2, deletedAt = None\<rparr>,
      \<lparr>id_c = 3, email = Some ''b@x.com'', phoneNumber = Some ''111'', linkedId = Some 1,
       linkPrecedence = Secondary, createdAt = 3, updatedAt = 3, deletedAt = None\<rparr>]"

text \<open>
  A cluster whose secondary carries an earlier \<open>createdAt\<close> than its primary, in
  ascending \<open>createdAt\<close> order.
\<close>

definition cluster_older_secondary :: "contact list" where
  "cluster_older_secondary =
     [\<lparr>id_c = 2, email = Some ''b@x.com'', phoneNumber = Some ''111'', linkedId = Some 1,
       linkPrecedence = Secondary, createdAt = 5, updatedAt = 5, deletedAt = None\<rparr>,
      \<lparr>id_c = 1, email = Some ''a@x.com'', phoneNumber = Some ''111'', linkedId = None,
       linkPrecedence = Primary, createdAt = 10, updatedAt = 10, deletedAt = None\<rparr>]"

text \<open>Two secondaries and no primary.\<close>

definition secondaries_only :: "contact list" where
  "secondaries_only =
     [\<lparr>id_c = 2, email = Some ''a@x.com'', phoneNumber = Some ''222'', linkedId = Some 1,
       linkPrecedence = Secondary, createdAt = 2, updatedAt = 2, deletedAt = None\<rparr>,
      \<lparr>id_c = 3, email = Some ''b@x.com'', phoneNumber = Some ''111'', linkedId = Some 1,
       linkPrecedence = Secondary, createdAt = 3, updatedAt = 3, deletedAt = None\<rparr>]"

subsection \<open>Tables, contact creation and links\<close>

text \<open>
  What a call has added to the table: the rows beyond those the table had before.
\<close>

definition created :: "store \<Rightarrow> store \<Rightarrow> contact list" where
  "created st st' = drop (length (rows st)) (rows st')"

text \<open>The emails and the phone numbers of the live contacts.\<close>

definition live_emails :: "store \<Rightarrow> string option list" where
  "live_emails st = map email (filter (\<lambda>c. deletedAt c = None) (rows st))"

definition live_phones :: "store \<Rightarrow> string option list" where
  "live_phones st = map phoneNumber (filter (\<lambda>c. deletedAt c = None) (rows st))"

text \<open>
  A contact duplicates a live contact of the table when its non-empty email or its
  non-empty phone number is the email or the phone number of one.
\<close>

definition duplicates_live :: "store \<Rightarrow> contact \<Rightarrow> bool" where
  "duplicates_live st c =
     ((truthy (email c) \<and> email c \<in> set (live_emails st)) \<or>
      (truthy (phoneNumber c) \<and> phoneNumber c \<in> set (live_phones st)))"

text \<open>
  The request brings something new: a non-empty email that no live contact has, or a
  non-empty phone number that no live contact has.
\<close>

definition has_new :: "string option \<Rightarrow> string option \<Rightarrow> store \<Rightarrow> bool" where
  "has_new e p st =
     ((truthy e \<and> e \<notin> set (live_emails st)) \<or> (truthy p \<and> p \<notin> set (live_phones st)))"

text \<open>The demotion loop of \<open>identifyContact\<close>, on its own.\<close>

definition demote_all :: "nat \<Rightarrow> nat \<Rightarrow> contact list \<Rightarrow> store \<Rightarrow> store" where
  "demote_all now pid others st =
     foldl (\<lambda>s c. updateToSecondaryContact now (id_c c) pid s) st others"

text \<open>
  A well-formed table: the ids are distinct (\<^verbatim>\<open>id\<close> is the key), and every id and
  every \<open>linkedId\<close> is below the next value of the sequence.
\<close>

definition wf_store :: "store \<Rightarrow> bool" where
  "wf_store st =
     (distinct (map id_c (rows st)) \<and>
      list_all (\<lambda>c. id_c c < next_id st \<and>
                  (case linkedId c of None \<Rightarrow> True | Some j \<Rightarrow> j < next_id st))
        (rows st))"

text \<open>
  The tables that successful calls of \<open>identifyContact\<close> reach from the empty table.
\<close>

inductive reachable :: "store \<Rightarrow> bool" where
  initial: "reachable empty_store"
| identify: "reachable st \<Longrightarrow> identifyContact now reqEmail reqPhone st = (Inr v, st') \<Longrightarrow>
     reachable st'"

text \<open>
  The invariant of clusters: a primary has no \<open>linkedId\<close>, and the \<open>linkedId\<close> of a
  secondary is the id of a live primary, so that every link is one hop long.
\<close>

definition links_to_primary :: "store \<Rightarrow> contact \<Rightarrow> bool" where
  "links_to_primary st c =
     (case linkPrecedence c of
        Primary \<Rightarrow> linkedId c = None
      | Secondary \<Rightarrow>
          list_ex (\<lambda>p. linkPrecedence p = Primary \<and> deletedAt p = None \<and>
                       linkedId c = Some (id_c p)) (rows st))"

definition one_hop :: "store \<Rightarrow> bool" where
  "one_hop st = list_all (links_to_primary st) (filter (\<lambda>c. deletedAt c = None) (rows st))"

subsection \<open>Example tables\<close>

text \<open>One primary, and the table after a request that brings a new phone number.\<close>

definition store_one_primary :: store where
  "store_one_primary =
     \<lparr>rows =
        [\<lparr>id_c = 1, email = Some ''a@x.com'', phoneNumber = Some ''111'', linkedId = None,
          linkPrecedence = Primary, createdAt = 1, updatedAt = 1, deletedAt = None\<rparr>],
      next_id = 2\<rparr>"

definition secondary_a222 :: contact where
  "secondary_a222 =
     \<lparr>id_c = 2, email = Some ''a@x.com'', phoneNumber = Some ''222'', linkedId = Some 1,
      linkPrecedence = Secondary, createdAt = 2, updatedAt = 2, deletedAt = None\<rparr>"

definition store_with_secondary :: store where
  "store_with_secondary =
     \<lparr>rows =
        [\<lparr>id_c = 1, email = Some ''a@x.com'', phoneNumber = Some ''111'', linkedId = None,
          linkPrecedence = Primary, createdAt = 1, updatedAt = 1, deletedAt = None\<rparr>,
         \<lparr>id_c = 2, email = Some ''a@x.com'', phoneNumber = Some ''222'', linkedId = Some 1,
          linkPrecedence = Secondary, createdAt = 2, updatedAt = 2, deletedAt = None\<rparr>],
      next_id = 3\<rparr>"

text \<open>
  Two primaries that share nothing, the first with an email only and the second with
  a phone number only, and the table after the request that names both.
\<close>

definition store_two_primaries :: store where
  "store_two_primaries =
     \<lparr>rows =
        [\<lparr>id_c = 1, email = Some ''a@x.com'', phoneNumber = None, linkedId = None,
          linkPrecedence = Primary, createdAt = 1, updatedAt = 1, deletedAt = None\<rparr>,
         \<lparr>id_c = 2, email = None, phoneNumber = Some ''222'', linkedId = None,
          linkPrecedence = Primary, createdAt = 2, updatedAt = 2, deletedAt = None\<rparr>],
      next_id = 3\<rparr>"

definition store_two_merged :: store where
  "store_two_merged =
     \<lparr>rows =
        [\<lparr>id_c = 1, email = Some ''a@x.com'', phoneNumber = None, linkedId = None,
          linkPrecedence = Primary, createdAt = 1, updatedAt = 1, deletedAt = None\<rparr>,
         \<lparr>id_c = 2, email = None, phoneNumber = Some ''222'', linkedId = Some 1,
          linkPrecedence = Secondary, createdAt = 2, updatedAt = 3, deletedAt = None\<rparr>],
      next_id = 3\<rparr>"

text \<open>
  A primary (id 1), and a second primary (id 2) with a secondary of its own (id 3);
  then the table after the request that names the email of the first primary and the
  phone number of the second.
\<close>

definition store_before_merge :: store where
  "store_before_merge =
     \<lparr>rows =
        [\<lparr>id_c = 1, email = Some ''a@x.com'', phoneNumber = Some ''111'', linkedId = None,
          linkPrecedence = Primary, createdAt = 1, updatedAt = 1, deletedAt = None\<rparr>,
         \<lparr>id_c = 2, email = Some ''b@x.com'', phoneNumber = Some ''222'', linkedId = None,
          linkPrecedence = Primary, createdAt = 2, updatedAt = 2, deletedAt = None\<rparr>,
         \<lparr>id_c = 3, email = Some ''b@x.com'', phoneNumber = Some ''333'', linkedId = Some 2,
          linkPrecedence = Secondary, createdAt = 3, updatedAt = 3, deletedAt = None\<rparr>],
      next_id = 4\<rparr>"

definition store_after_merge :: store where
  "store_after_merge =
     \<lparr>rows =
        [\<lparr>id_c = 1, email = Some ''a@x.com'', phoneNumber = Some ''111'', linkedId = None,
          linkPrecedence = Primary, createdAt = 1, updatedAt = 1, deletedAt = None\<rparr>,
         \<lparr>id_c = 2, email = Some ''b@x.com'', phoneNumber = Some ''222'', linkedId = Some 1,
          linkPrecedence = Secondary, createdAt = 2, updatedAt = 4, deletedAt = None\<rparr>,
         \<lparr>id_c = 3, email = Some ''b@x.com'', phoneNumber = Some ''333'', linkedId = Some 2,
          linkPrecedence = Secondary, createdAt = 3, updatedAt = 3, deletedAt = None\<rparr>],
      next_id = 4\<rparr>"

text \<open>
  Two primaries with an email and a phone number each, after the request that names
  the email of the first and the phone number of the second.
\<close>

definition store_pair_merged :: store where
  "store_pair_merged =
     \<lparr>rows =
        [\<lparr>id_c = 1, email = Some ''a@x.com'', phoneNumber = Some ''111'', linkedId = None,
          linkPrecedence = Primary, createdAt = 1, updatedAt = 1, deletedAt = None\<rparr>,
         \<lparr>id_c = 2, email = Some ''b@x.com'', phoneNumber = Some ''222'', linkedId = Some 1,
          linkPrecedence = Secondary, createdAt = 2, updatedAt = 3, deletedAt = None\<rparr>],
      next_id = 3\<rparr>"

text \<open>
  Three primaries, merged one after the other by requests that create no contact:
  the third under the second (\<open>store_chain_before\<close>), then the second under the first
  (\<open>store_chain\<close>).
\<close>

definition store_chain_before :: store where
  "store_chain_before =
     \<lparr>rows =
        [\<lparr>id_c = 1, email = Some ''a@x.com'', phoneNumber = Some ''111'', linkedId = None,
          linkPrecedence = Primary, createdAt = 1, updatedAt = 1, deletedAt = None\<rparr>,
         \<lparr>id_c = 2, email = Some ''b@x.com'', phoneNumber = Some ''222'', linkedId = None,
          linkPrecedence = Primary, createdAt = 2, updatedAt = 2, deletedAt = None\<rparr>,
         \<lparr>id_c = 3, email = Some ''c@x.com'', phoneNumber = Some ''333'', linkedId = Some 2,
          linkPrecedence = Secondary, createdAt = 3, updatedAt = 4, deletedAt = None\<rparr>],
      next_id = 4\<rparr>"

definition calls_chain :: "(nat \<times> string option \<times> string option) list" where
  "calls_chain =
     [(1, Some ''a@x.com'', Some ''111''),
      (2, Some ''b@x.com'', Some ''222''),
      (3, Some ''c@x.com'', Some ''333''),
      (4, Some ''b@x.com'', Some ''333''),
      (5, Some ''a@x.com'', Some ''222'')]"

definition store_chain :: store where
  "store_chain =
     \<lparr>rows =
        [\<lparr>id_c = 1, email = Some ''a@x.com'', phoneNumber = Some ''111'', linkedId = None,
          linkPrecedence = Primary, createdAt = 1, updatedAt = 1, deletedAt = None\<rparr>,
         \<lparr>id_c = 2, email = Some ''b@x.com'', phoneNumber = Some ''222'', linkedId = Some 1,
          linkPrecedence = Secondary, createdAt = 2, updatedAt = 5, deletedAt = None\<rparr>,
         \<lparr>id_c = 3, email = Some ''c@x.com'', phoneNumber = Some ''333'', linkedId = Some 2,
          linkPrecedence = Secondary, createdAt = 3, updatedAt = 4, deletedAt = None\<rparr>],
      next_id = 4\<rparr>"

section \<open>Properties\<close>

subsection \<open>The view builder\<close>

lemma not_Primary_iff: "(l \<noteq> Primary) = (l = Secondary)"
  by (cases l) auto

lemma collect_ids:
  "snd (snd (collect cs (es, ps, ids))) =
     ids @ map id_c (filter (\<lambda>c. linkPrecedence c = Secondary) cs)"
  by (induction cs arbitrary: es ps ids) auto

lemma first_occurrences_cong:
  "set seen = set seen' \<Longrightarrow> first_occurrences seen xs = first_occurrences seen' xs"
proof (induction xs arbitrary: seen seen')
  case Nil
  show ?case by simp
next
  case (Cons x xs)
  have "first_occurrences (x # seen) xs = first_occurrences (x # seen') xs"
    by (rule Cons.IH) (simp add: Cons.prems)
  moreover have "first_occurrences seen xs = first_occurrences seen' xs"
    by (rule Cons.IH) (rule Cons.prems)
  ultimately show ?case
    using Cons.prems by simp
qed

text \<open>Adding to a \<^verbatim>\<open>Set\<close> one value after another keeps the first occurrences.\<close>

lemma foldl_set_add: "foldl set_add s xs = s @ first_occurrences s xs"
proof (induction xs arbitrary: s)
  case Nil
  show ?case by simp
next
  case (Cons x xs)
  have "first_occurrences (s @ [x]) xs = first_occurrences (x # s) xs"
    by (rule first_occurrences_cong) simp
  with Cons show ?case by (simp add: set_add_def)
qed

lemma collect_emails:
  "fst (collect cs (es, ps, ids)) = foldl set_add es (values_of email cs)"
  by (induction cs arbitrary: es ps ids)
     (auto simp: values_of_def singleton_if_def split: option.splits)

lemma collect_phones:
  "fst (snd (collect cs (es, ps, ids))) = foldl set_add ps (values_of phoneNumber cs)"
  by (induction cs arbitrary: es ps ids)
     (auto simp: values_of_def singleton_if_def split: option.splits)

lemma set_first_occurrences:
  "set (first_occurrences seen xs) = set xs - set seen"
  by (induction xs arbitrary: seen) auto

lemma distinct_first_occurrences: "distinct (first_occurrences seen xs)"
  by (induction xs arbitrary: seen) (auto simp: set_first_occurrences)

lemma set_values_of:
  "set (values_of field cs) = {v. v \<noteq> [] \<and> Some v \<in> field ` set cs}"
  by (auto simp: values_of_def singleton_if_def image_iff split: option.splits if_splits)

text \<open>The view of a non-empty sequence, field by field.\<close>

lemma buildConsolidatedResponse_Cons:
  "buildConsolidatedResponse (c # cs) =
     Inr \<lparr>primaryContactId =
            id_c (case find (\<lambda>c. linkPrecedence c = Primary) (c # cs) of
                    Some p \<Rightarrow> p | None \<Rightarrow> c),
          emails = first_occurrences [] (values_of email (c # cs)),
          phoneNumbers = first_occurrences [] (values_of phoneNumber (c # cs)),
          secondaryContactIds =
            map id_c (filter (\<lambda>c. linkPrecedence c = Secondary) (c # cs))\<rparr>"
proof -
  obtain es ps ids where col: "collect (c # cs) ([], [], []) = (es, ps, ids)"
    by (cases "collect (c # cs) ([], [], [])") auto
  have "es = first_occurrences [] (values_of email (c # cs))"
    using collect_emails [of "c # cs" "[]" "[]" "[]"] col by (simp add: foldl_set_add)
  moreover have "ps = first_occurrences [] (values_of phoneNumber (c # cs))"
    using collect_phones [of "c # cs" "[]" "[]" "[]"] col by (simp add: foldl_set_add)
  moreover have "ids = map id_c (filter (\<lambda>c. linkPrecedence c = Secondary) (c # cs))"
    using collect_ids [of "c # cs" "[]" "[]" "[]"] col by simp
  ultimately show ?thesis
    using col by (simp add: buildConsolidatedResponse_def)
qed

lemma buildConsolidatedResponse_Inl:
  "(buildConsolidatedResponse cs = Inl e) = (cs = [] \<and> e = EmptyCluster)"
proof (cases cs)
  case Nil
  then show ?thesis by (auto simp: buildConsolidatedResponse_def)
next
  case (Cons c cs')
  then show ?thesis by (simp add: buildConsolidatedResponse_Cons)
qed

lemma spec_values_primary_first:
  assumes "sorted (map createdAt (p # rest))" and "linkPrecedence p = Primary"
  shows "spec_values field (p # rest) = first_occurrences [] (values_of field (p # rest))"
proof -
  have srt: "sort_key createdAt (p # rest) = p # rest"
    using assms(1) by (rule sort_key_id_if_sorted)
  have fnd: "find (\<lambda>c. linkPrecedence c = Primary) (p # rest) = Some p"
    using assms(2) by simp
  show ?thesis
  proof (cases "singleton_if (field p)")
    case Nil
    then show ?thesis
      unfolding spec_values_def srt fnd by (simp add: values_of_def)
  next
    case (Cons v vs)
    then have own: "singleton_if (field p) = [v]"
      by (auto simp: singleton_if_def split: option.splits if_splits)
    have "filter (\<lambda>x. x \<noteq> v) (first_occurrences [v] ys) = first_occurrences [v] ys" for ys
      by (rule filter_True) (simp add: set_first_occurrences)
    then show ?thesis
      unfolding spec_values_def srt fnd by (simp add: values_of_def own)
  qed
qed

text \<open>
  C7, as amended. For every cluster sequence in ascending \<open>createdAt\<close> order whose
  first member is the primary, the view builder returns the emails as the
  specification describes them (the cluster's distinct non-empty email values, the
  primary's own first, then the remaining ones by the age of the owning contact,
  each once), the phone numbers likewise, and as secondary ids the ids of the
  non-primary members in ascending \<open>createdAt\<close> order.
\<close>

theorem buildConsolidatedResponse_view:
  assumes "sorted (map createdAt (p # rest))" and "linkPrecedence p = Primary"
  shows "\<exists>v. buildConsolidatedResponse (p # rest) = Inr v \<and>
           primaryContactId v = id_c p \<and>
           emails v = spec_values email (p # rest) \<and>
           phoneNumbers v = spec_values phoneNumber (p # rest) \<and>
           secondaryContactIds v = spec_secondaryContactIds (p # rest) \<and>
           distinct (emails v) \<and> distinct (phoneNumbers v) \<and>
           set (emails v) = {e. e \<noteq> [] \<and> Some e \<in> email ` set (p # rest)} \<and>
           set (phoneNumbers v) = {n. n \<noteq> [] \<and> Some n \<in> phoneNumber ` set (p # rest)}"
proof -
  have srt: "sort_key createdAt (p # rest) = p # rest"
    using assms(1) by (rule sort_key_id_if_sorted)
  have ids: "spec_secondaryContactIds (p # rest) =
      map id_c (filter (\<lambda>c. linkPrecedence c = Secondary) (p # rest))"
    unfolding spec_secondaryContactIds_def srt by (simp add: not_Primary_iff)
  have set_e: "set (first_occurrences [] (values_of email (p # rest))) =
      {e. e \<noteq> [] \<and> Some e \<in> email ` set (p # rest)}"
    by (simp only: set_first_occurrences set_values_of) simp
  have set_p: "set (first_occurrences [] (values_of phoneNumber (p # rest))) =
      {n. n \<noteq> [] \<and> Some n \<in> phoneNumber ` set (p # rest)}"
    by (simp only: set_first_occurrences set_values_of) simp
  show ?thesis
    unfolding buildConsolidatedResponse_Cons [of p rest]
    using assms(2) ids set_e set_p
    by (simp add: spec_values_primary_first [OF assms] distinct_first_occurrences)
qed

text \<open>
  The theorem at \<open>cluster_abc\<close>: the primary's email and phone number come first,
  the shared values appear once.
\<close>

theorem buildConsolidatedResponse_view_witness:
  "buildConsolidatedResponse cluster_abc =
     Inr \<lparr>primaryContactId = 1, emails = [''a@x.com'', ''b@x.com''],
          phoneNumbers = [''111'', ''222''], secondaryContactIds = [2, 3]\<rparr>"
proof -
  let ?p = "\<lparr>id_c = 1, email = Some ''a@x.com'', phoneNumber = Some ''111'', linkedId = None,
       linkPrecedence = Primary, createdAt = 1, updatedAt = 1, deletedAt = None\<rparr>"
  let ?rest = "[\<lparr>id_c = 2, email = Some ''a@x.com'', phoneNumber = Some ''222'', linkedId = Some 1,
       linkPrecedence = Secondary, createdAt = 2, updatedAt = 2, deletedAt = None\<rparr>,
      \<lparr>id_c = 3, email = Some ''b@x.com'', phoneNumber = Some ''111'', linkedId = Some 1,
       linkPrecedence = Secondary, createdAt = 3, updatedAt = 3, deletedAt = None\<rparr>]"
  have srt: "sorted (map createdAt (?p # ?rest))" by simp
  have prim: "linkPrecedence ?p = Primary" by simp
  have e: "spec_values email (?p # ?rest) = [''a@x.com'', ''b@x.com'']"
    by (simp add: spec_values_def values_of_def singleton_if_def)
  have n: "spec_values phoneNumber (?p # ?rest) = [''111'', ''222'']"
    by (simp add: spec_values_def values_of_def singleton_if_def)
  have i: "spec_secondaryContactIds (?p # ?rest) = [2, 3]"
    by (simp add: spec_secondaryContactIds_def)
  from buildConsolidatedResponse_view [OF srt prim]
  obtain v where "buildConsolidatedResponse (?p # ?rest) = Inr v"
    and "primaryContactId v = 1"
    and "emails v = spec_values email (?p # ?rest)"
    and "phoneNumbers v = spec_values phoneNumber (?p # ?rest)"
    and "secondaryContactIds v = spec_secondaryContactIds (?p # ?rest)"
    by auto
  then show ?thesis
    unfolding e n i cluster_abc_def by (cases v) simp
qed

text \<open>
  C7, as stated, fails where the primary is not the oldest member of its cluster:
  the view builder lists the values in the order of the sequence, so the older
  secondary's email comes before the primary's own.
\<close>

theorem buildConsolidatedResponse_primary_not_first:
  "buildConsolidatedResponse cluster_older_secondary =
     Inr \<lparr>primaryContactId = 1, emails = [''b@x.com'', ''a@x.com''],
          phoneNumbers = [''111''], secondaryContactIds = [2]\<rparr> \<and>
   sorted (map createdAt cluster_older_secondary) \<and>
   spec_values email cluster_older_secondary = [''a@x.com'', ''b@x.com'']"
  by (simp add: cluster_older_secondary_def buildConsolidatedResponse_def set_add_def
      spec_values_def values_of_def singleton_if_def)

text \<open>
  C10. A non-empty sequence with no primary does not make the view builder fail:
  the first contact's id is returned as \<open>primaryContactId\<close>, and the id of every
  member (all of them secondaries) is listed in \<open>secondaryContactIds\<close>. The view
  builder fails on the empty sequence and on nothing else.
\<close>

theorem buildConsolidatedResponse_no_primary:
  "((\<exists>e. buildConsolidatedResponse contacts = Inl e) = (contacts = [])) \<and>
   (contacts \<noteq> [] \<and> (\<forall>c\<in>set contacts. linkPrecedence c \<noteq> Primary) \<longrightarrow>
     (\<exists>v. buildConsolidatedResponse contacts = Inr v \<and>
          primaryContactId v = id_c (hd contacts) \<and>
          secondaryContactIds v = map id_c contacts))"
proof (intro conjI impI)
  show "(\<exists>e. buildConsolidatedResponse contacts = Inl e) = (contacts = [])"
    by (simp add: buildConsolidatedResponse_Inl)
next
  assume a: "contacts \<noteq> [] \<and> (\<forall>c\<in>set contacts. linkPrecedence c \<noteq> Primary)"
  then obtain first rest where cs: "contacts = first # rest"
    by (cases contacts) auto
  have all: "filter (\<lambda>c. linkPrecedence c = Secondary) contacts = contacts"
    using a by (simp add: not_Primary_iff)
  have "find (\<lambda>c. linkPrecedence c = Primary) contacts = None"
    using a by (simp add: find_None_iff)
  then show "\<exists>v. buildConsolidatedResponse contacts = Inr v \<and>
      primaryContactId v = id_c (hd contacts) \<and>
      secondaryContactIds v = map id_c contacts"
    using all unfolding cs buildConsolidatedResponse_Cons by simp
qed

text \<open>The theorem at \<open>secondaries_only\<close>: the first contact stands in for the primary.\<close>

theorem buildConsolidatedResponse_no_primary_witness:
  "secondaries_only \<noteq> [] \<and>
   list_all (\<lambda>c. linkPrecedence c \<noteq> Primary) secondaries_only \<and>
   (\<exists>v. buildConsolidatedResponse secondaries_only = Inr v \<and>
        primaryContactId v = 2 \<and> secondaryContactIds v = [2, 3])"
  using buildConsolidatedResponse_no_primary [of secondaries_only]
  by (simp add: secondaries_only_def)

subsection \<open>Rejected requests\<close>

text \<open>
  C9, as amended. \<open>identifyContact\<close> signals \<open>InvalidRequest\<close> if and only if the
  email and the phone number are each missing or the empty string; it then returns
  the error to its caller and leaves the table as it was, whatever the table holds.
\<close>

theorem identifyContact_InvalidRequest:
  "(fst (identifyContact now reqEmail reqPhone st) = Inl InvalidRequest) =
     (\<not> truthy reqEmail \<and> \<not> truthy reqPhone) \<and>
   (identifyContact now reqEmail reqPhone st = (Inl InvalidRequest, st')) =
     (\<not> truthy reqEmail \<and> \<not> truthy reqPhone \<and> st' = st)"
  by (auto simp: identifyContact_def Let_def createPrimaryContact_def
      buildConsolidatedResponse_Inl split: list.splits prod.splits)

text \<open>
  C9, as stated, fails on a request whose email is the empty string and whose phone
  number is missing: the email is not absent, and the request is rejected.
\<close>

theorem identifyContact_empty_email_rejected:
  "identifyContact 1 (Some '''') None empty_store = (Inl InvalidRequest, empty_store) \<and>
   \<not> (absent (Some '''') \<and> absent None)"
  by (simp add: identifyContact_def truthy_def absent_def)

subsection \<open>Evaluating the operation\<close>

text \<open>The definitions that a call on a given table unfolds.\<close>

lemmas identify_defs = identifyContact_def findContactsByEmailOrPhone_def findLinkedContacts_def
  createPrimaryContact_def createSecondaryContact_def updateToSecondaryContact_def demoted_def
  buildConsolidatedResponse_def set_add_def truthy_def or_null_def singleton_if_def Let_def
  empty_store_def

subsection \<open>The branches of the operation\<close>

lemma demoted_simps [simp]:
  "id_c (demoted now pid c) = id_c c"
  "email (demoted now pid c) = email c"
  "phoneNumber (demoted now pid c) = phoneNumber c"
  "deletedAt (demoted now pid c) = deletedAt c"
  "createdAt (demoted now pid c) = createdAt c"
  "linkPrecedence (demoted now pid c) = Secondary"
  "linkedId (demoted now pid c) = Some pid"
  "demoted now pid (demoted now pid c) = demoted now pid c"
  by (simp_all add: demoted_def)

lemma demote_all_eq:
  "demote_all now pid others st =
     st\<lparr>rows := map (\<lambda>c. if id_c c \<in> id_c ` set others then demoted now pid c else c)
                    (rows st)\<rparr>"
proof (induction others rule: rev_induct)
  case Nil
  show ?case by (simp add: demote_all_def)
next
  case (snoc x xs)
  have "demote_all now pid (xs @ [x]) st =
      updateToSecondaryContact now (id_c x) pid (demote_all now pid xs st)"
    by (simp add: demote_all_def)
  also have "\<dots> = st\<lparr>rows := map (\<lambda>c. if id_c c \<in> id_c ` set (xs @ [x])
      then demoted now pid c else c) (rows st)\<rparr>"
    unfolding snoc.IH by (simp add: updateToSecondaryContact_def)
  finally show ?case .
qed

lemma known_email_iff:
  "truthy e \<Longrightarrow>
   (e \<in> set (filter truthy (map email (findContactsByEmailOrPhone e p st)))) =
     (e \<in> set (live_emails st))"
  by (auto simp: findContactsByEmailOrPhone_def live_emails_def)

lemma known_phone_iff:
  "truthy p \<Longrightarrow>
   (p \<in> set (filter truthy (map phoneNumber (findContactsByEmailOrPhone e p st)))) =
     (p \<in> set (live_phones st))"
  by (auto simp: findContactsByEmailOrPhone_def live_phones_def)

lemma no_match_fresh:
  assumes "findContactsByEmailOrPhone e p st = []"
  shows "(truthy e \<longrightarrow> e \<notin> set (live_emails st)) \<and> (truthy p \<longrightarrow> p \<notin> set (live_phones st))"
proof -
  have "set (findContactsByEmailOrPhone e p st) = {}" using assms by simp
  then show ?thesis
    by (auto simp: findContactsByEmailOrPhone_def live_emails_def live_phones_def)
qed

text \<open>
  The operation, branch by branch: no contact matches, contacts match and none is a
  primary, contacts match and \<open>P\<close> is the oldest primary among them.
\<close>

lemma identifyContact_new:
  assumes "truthy e \<or> truthy p" and "findContactsByEmailOrPhone e p st = []"
  shows "identifyContact now e p st =
     (Inr \<lparr>primaryContactId = next_id st, emails = singleton_if e,
           phoneNumbers = singleton_if p, secondaryContactIds = []\<rparr>,
      \<lparr>rows = rows st @ [\<lparr>id_c = next_id st, email = or_null e, phoneNumber = or_null p,
          linkedId = None, linkPrecedence = Primary, createdAt = now, updatedAt = now,
          deletedAt = None\<rparr>],
       next_id = Suc (next_id st)\<rparr>)"
  using assms by (auto simp: identifyContact_def createPrimaryContact_def Let_def)

lemma identifyContact_no_primary:
  assumes "truthy e \<or> truthy p" and "findContactsByEmailOrPhone e p st \<noteq> []"
    and "sort_key createdAt (filter (\<lambda>c. linkPrecedence c = Primary)
           (findContactsByEmailOrPhone e p st)) = []"
  shows "identifyContact now e p st = (Inl TypeError, st)"
  using assms by (auto simp: identifyContact_def Let_def)

lemma identifyContact_matched:
  assumes "truthy e \<or> truthy p" and "findContactsByEmailOrPhone e p st \<noteq> []"
    and "sort_key createdAt (filter (\<lambda>c. linkPrecedence c = Primary)
           (findContactsByEmailOrPhone e p st)) = P # others"
  shows "identifyContact now e p st =
     (let st1 = demote_all now (id_c P) others st;
          st2 = (if has_new e p st
                 then snd (createSecondaryContact now (or_null e) (or_null p) (id_c P) st1)
                 else st1)
      in (buildConsolidatedResponse (findLinkedContacts (id_c P) st2), st2))"
proof -
  have "(truthy e \<and> e \<notin> set (filter truthy (map email (findContactsByEmailOrPhone e p st))) \<or>
         truthy p \<and> p \<notin> set (filter truthy (map phoneNumber (findContactsByEmailOrPhone e p st))))
        = has_new e p st"
    using known_email_iff [of e p st] known_phone_iff [of p e st]
    unfolding has_new_def by blast
  then show ?thesis
    using assms unfolding identifyContact_def Let_def demote_all_def
    by (cases "truthy e") (simp_all del: set_filter set_map)
qed

subsection \<open>Created contacts\<close>

lemma truthy_or_null [simp]: "truthy (or_null s) = truthy s"
  by (simp add: or_null_def truthy_def)

lemma or_null_truthy: "truthy s \<Longrightarrow> or_null s = s"
  by (simp add: or_null_def)

lemma singleton_if_or_null [simp]: "singleton_if (or_null s) = singleton_if s"
  by (auto simp: or_null_def singleton_if_def truthy_def split: option.splits)

lemma rows_demote_all:
  "rows (demote_all now pid others st) =
     map (\<lambda>c. if id_c c \<in> id_c ` set others then demoted now pid c else c) (rows st)"
  by (simp add: demote_all_eq)

lemma next_id_demote_all: "next_id (demote_all now pid others st) = next_id st"
  by (simp add: demote_all_eq)

lemma live_emails_demote_all: "live_emails (demote_all now pid others st) = live_emails st"
  by (simp add: live_emails_def rows_demote_all filter_map o_def if_distrib cong: if_cong)

lemma live_phones_demote_all: "live_phones (demote_all now pid others st) = live_phones st"
  by (simp add: live_phones_def rows_demote_all filter_map o_def if_distrib cong: if_cong)

text \<open>
  C6, as amended. Every contact a call creates carries the incoming email and phone
  number in full, and at least one of its non-empty values is held by no live
  contact at that moment; a call creates at most one contact. A new primary
  duplicates no live contact; a new secondary may, in its other field.
\<close>

theorem identifyContact_created:
  assumes "identifyContact now reqEmail reqPhone st = (r, st')"
    and "c \<in> set (created st st')"
  shows "created st st' = [c] \<and> email c = or_null reqEmail \<and>
         phoneNumber c = or_null reqPhone \<and>
         ((truthy (email c) \<and> email c \<notin> set (live_emails st)) \<or>
          (truthy (phoneNumber c) \<and> phoneNumber c \<notin> set (live_phones st))) \<and>
         (linkPrecedence c = Primary \<longrightarrow> \<not> duplicates_live st c)"
proof (cases "truthy reqEmail \<or> truthy reqPhone")
  case False
  then have "st' = st"
    using assms(1) by (simp add: identifyContact_def)
  then show ?thesis using assms(2) by (simp add: created_def)
next
  case valid: True
  let ?M = "findContactsByEmailOrPhone reqEmail reqPhone st"
  show ?thesis
  proof (cases "?M = []")
    case True
    note fresh = no_match_fresh [OF True]
    from identifyContact_new [OF valid True, of now] assms(1)
    have "rows st' = rows st @ [\<lparr>id_c = next_id st, email = or_null reqEmail,
        phoneNumber = or_null reqPhone, linkedId = None, linkPrecedence = Primary,
        createdAt = now, updatedAt = now, deletedAt = None\<rparr>]"
      by auto
    then have c: "created st st' = [c]" "email c = or_null reqEmail"
      "phoneNumber c = or_null reqPhone"
      using assms(2) by (auto simp: created_def)
    show ?thesis
      using c valid fresh by (auto simp: duplicates_live_def or_null_truthy)
  next
    case matched: False
    show ?thesis
    proof (cases "sort_key createdAt (filter (\<lambda>c. linkPrecedence c = Primary) ?M)")
      case Nil
      from identifyContact_no_primary [OF valid matched Nil, of now] assms(1)
      have "st' = st" by simp
      then show ?thesis using assms(2) by (simp add: created_def)
    next
      case (Cons P others)
      let ?st1 = "demote_all now (id_c P) others st"
      show ?thesis
      proof (cases "has_new reqEmail reqPhone st")
        case False
        with identifyContact_matched [OF valid matched Cons, of now] assms(1)
        have "st' = ?st1" by (simp add: Let_def)
        then show ?thesis using assms(2) by (simp add: created_def rows_demote_all)
      next
        case True
        with identifyContact_matched [OF valid matched Cons, of now] assms(1)
        have "st' = snd (createSecondaryContact now (or_null reqEmail) (or_null reqPhone)
            (id_c P) ?st1)"
          by (simp add: Let_def)
        then have c: "created st st' = [c]" "email c = or_null reqEmail"
          "phoneNumber c = or_null reqPhone" "linkPrecedence c = Secondary"
          using assms(2)
          by (auto simp: created_def createSecondaryContact_def Let_def rows_demote_all)
        show ?thesis
          using c True by (auto simp: has_new_def or_null_truthy)
      qed
    qed
  qed
qed

text \<open>
  The theorem of C6 at \<open>store_one_primary\<close>: the secondary created carries the email
  and the phone number of the request, and its phone number is new.
\<close>

theorem identifyContact_created_witness:
  "identifyContact 2 (Some ''a@x.com'') (Some ''222'') store_one_primary =
     (Inr \<lparr>primaryContactId = 1, emails = [''a@x.com''],
           phoneNumbers = [''111'', ''222''], secondaryContactIds = [2]\<rparr>,
      store_with_secondary) \<and>
   created store_one_primary store_with_secondary = [secondary_a222] \<and>
   email secondary_a222 = Some ''a@x.com'' \<and>
   phoneNumber secondary_a222 = Some ''222'' \<and>
   Some ''222'' \<notin> set (live_phones store_one_primary)"
proof -
  have run: "identifyContact 2 (Some ''a@x.com'') (Some ''222'') store_one_primary =
     (Inr \<lparr>primaryContactId = 1, emails = [''a@x.com''],
           phoneNumbers = [''111'', ''222''], secondaryContactIds = [2]\<rparr>,
      store_with_secondary)"
    by (simp add: store_one_primary_def store_with_secondary_def identify_defs)
  have mem: "secondary_a222 \<in> set (created store_one_primary store_with_secondary)"
    by (simp add: created_def store_one_primary_def store_with_secondary_def secondary_a222_def)
  have live: "live_emails store_one_primary = [Some ''a@x.com'']"
    "live_phones store_one_primary = [Some ''111'']"
    by (simp_all add: live_emails_def live_phones_def store_one_primary_def)
  from identifyContact_created [OF run mem] run live
  show ?thesis
    by (simp add: or_null_def truthy_def)
qed

text \<open>
  C6, as stated, fails: the secondary created for a new phone number carries the
  email of the request as well, which is the email of the live primary.
\<close>

theorem identifyContact_creates_duplicate:
  "identify_all [(1, Some ''a@x.com'', Some ''111'')] empty_store = Some store_one_primary \<and>
   identifyContact 2 (Some ''a@x.com'') (Some ''222'') store_one_primary =
     (Inr \<lparr>primaryContactId = 1, emails = [''a@x.com''],
           phoneNumbers = [''111'', ''222''], secondaryContactIds = [2]\<rparr>,
      store_with_secondary) \<and>
   created store_one_primary store_with_secondary = [secondary_a222] \<and>
   duplicates_live store_one_primary secondary_a222"
  by (simp add: store_one_primary_def store_with_secondary_def secondary_a222_def identify_defs
      created_def duplicates_live_def live_emails_def live_phones_def)

subsection \<open>Well-formed tables\<close>

lemma wf_store_append:
  assumes "wf_store st" and "case l of None \<Rightarrow> True | Some j \<Rightarrow> j < next_id st"
  shows "wf_store \<lparr>rows = rows st @ [\<lparr>id_c = next_id st, email = e, phoneNumber = p,
      linkedId = l, linkPrecedence = lp, createdAt = t, updatedAt = u, deletedAt = d\<rparr>],
      next_id = Suc (next_id st)\<rparr>"
  using assms by (auto simp: wf_store_def list_all_iff less_Suc_eq split: option.splits)

lemma wf_store_demote_all:
  assumes "wf_store st" and "pid < next_id st"
  shows "wf_store (demote_all now pid others st)"
proof -
  let ?g = "\<lambda>c. if id_c c \<in> id_c ` set others then demoted now pid c else c"
  let ?Q = "\<lambda>c. id_c c < next_id st \<and>
      (case linkedId c of None \<Rightarrow> True | Some j \<Rightarrow> j < next_id st)"
  have sel: "rows (st\<lparr>rows := r\<rparr>) = r" "next_id (st\<lparr>rows := r\<rparr>) = next_id st" for r
    by simp_all
  have ids: "map id_c (map ?g (rows st)) = map id_c (rows st)"
    by (simp add: o_def if_distrib cong: if_cong)
  have key: "?Q (?g c)" if "c \<in> set (rows st)" for c
    using that assms by (auto simp: wf_store_def list_all_iff)
  have "list_all ?Q (map ?g (rows st))"
    unfolding list_all_iff set_map using key by blast
  then show ?thesis
    using assms(1) unfolding wf_store_def demote_all_eq sel ids by simp
qed

lemma identifyContact_wf:
  assumes wf: "wf_store st" and run: "identifyContact now reqEmail reqPhone st = (r, st')"
  shows "wf_store st'"
proof (cases "truthy reqEmail \<or> truthy reqPhone")
  case False
  then have "st' = st"
    using run by (simp add: identifyContact_def)
  then show ?thesis using wf by simp
next
  case valid: True
  let ?M = "findContactsByEmailOrPhone reqEmail reqPhone st"
  show ?thesis
  proof (cases "?M = []")
    case True
    from identifyContact_new [OF valid True, of now] run
    have "st' = \<lparr>rows = rows st @ [\<lparr>id_c = next_id st, email = or_null reqEmail,
        phoneNumber = or_null reqPhone, linkedId = None, linkPrecedence = Primary,
        createdAt = now, updatedAt = now, deletedAt = None\<rparr>], next_id = Suc (next_id st)\<rparr>"
      by simp
    then show ?thesis
      using wf_store_append [OF wf, of None] by simp
  next
    case matched: False
    show ?thesis
    proof (cases "sort_key createdAt (filter (\<lambda>c. linkPrecedence c = Primary) ?M)")
      case Nil
      from identifyContact_no_primary [OF valid matched Nil, of now] run
      show ?thesis using wf by simp
    next
      case (Cons P others)
      have "P \<in> set (sort_key createdAt (filter (\<lambda>c. linkPrecedence c = Primary) ?M))"
        unfolding Cons by simp
      then have "P \<in> set (rows st)"
        by (simp add: findContactsByEmailOrPhone_def)
      then have pid: "id_c P < next_id st"
        using wf by (simp add: wf_store_def list_all_iff)
      let ?st1 = "demote_all now (id_c P) others st"
      have wf1: "wf_store ?st1"
        using wf pid by (rule wf_store_demote_all)
      show ?thesis
      proof (cases "has_new reqEmail reqPhone st")
        case False
        with identifyContact_matched [OF valid matched Cons, of now] run
        have "st' = ?st1" by (simp add: Let_def)
        then show ?thesis using wf1 by simp
      next
        case True
        with identifyContact_matched [OF valid matched Cons, of now] run
        have "st' = \<lparr>rows = rows ?st1 @ [\<lparr>id_c = next_id ?st1, email = or_null reqEmail,
            phoneNumber = or_null reqPhone, linkedId = Some (id_c P),
            linkPrecedence = Secondary, createdAt = now, updatedAt = now,
            deletedAt = None\<rparr>], next_id = Suc (next_id ?st1)\<rparr>"
          by (simp add: Let_def createSecondaryContact_def)
        then show ?thesis
          using wf_store_append [OF wf1, of "Some (id_c P)"] pid
          by (simp add: next_id_demote_all)
      qed
    qed
  qed
qed

lemma wf_empty_store: "wf_store empty_store"
  by (simp add: wf_store_def empty_store_def)

lemma reachable_wf: "reachable st \<Longrightarrow> wf_store st"
  by (induction rule: reachable.induct) (auto intro: wf_empty_store identifyContact_wf)

text \<open>A sequence of successful calls on a reachable table leaves a reachable table.\<close>

lemma identify_all_reachable:
  "reachable st \<Longrightarrow> identify_all calls st = Some st' \<Longrightarrow> reachable st'"
proof (induction calls arbitrary: st)
  case Nil
  then show ?case by simp
next
  case (Cons call calls)
  obtain now e p where call: "call = (now, e, p)"
    by (cases call) auto
  obtain r st1 where run: "identifyContact now e p st = (r, st1)"
    by (cases "identifyContact now e p st") auto
  from Cons.prems(2) obtain v where r: "r = Inr v" and rest: "identify_all calls st1 = Some st'"
    unfolding call using run by (cases r) auto
  have "reachable st1"
    using Cons.prems(1) run unfolding r by (rule reachable.identify)
  then show ?case
    using rest by (rule Cons.IH)
qed

subsection \<open>Repeated requests\<close>

lemma filter_eq_singleton:
  "distinct xs \<Longrightarrow> x \<in> set xs \<Longrightarrow> filter (\<lambda>c. c = x) xs = [x]"
proof (induction xs)
  case Nil
  then show ?case by simp
next
  case (Cons a xs)
  show ?case
  proof (cases "a = x")
    case True
    then have "x \<notin> set xs" using Cons.prems(1) by simp
    then have "filter (\<lambda>c. c = x) xs = []" by (auto simp: filter_empty_conv)
    with True show ?thesis by simp
  next
    case False
    with Cons show ?thesis by simp
  qed
qed

lemma distinct_ids_sort_key:
  "distinct (map id_c (sort_key f xs)) = distinct (map id_c xs)"
  by (simp add: distinct_map)

lemma surviving_primary_alone:
  assumes dist: "distinct (map id_c rs)"
    and inv: "\<And>c. Q (demoted now pid c) = Q c"
    and prim: "sort_key createdAt (filter (\<lambda>c. linkPrecedence c = Primary)
                 (sort_key createdAt (filter Q rs))) = P # others"
    and ns: "list_all (\<lambda>c. linkPrecedence c = Secondary) ns"
  shows "filter (\<lambda>c. linkPrecedence c = Primary)
           (filter Q (map (\<lambda>c. if id_c c \<in> id_c ` set others then demoted now pid c else c) rs
              @ ns)) = [P]"
proof -
  let ?g = "\<lambda>c. if id_c c \<in> id_c ` set others then demoted now pid c else c"
  let ?prim = "\<lambda>c. linkPrecedence c = Primary"
  have "set (sort_key createdAt (filter ?prim (sort_key createdAt (filter Q rs)))) =
      {c \<in> set rs. Q c \<and> ?prim c}"
    by auto
  then have set_eq: "set (P # others) = {c \<in> set rs. Q c \<and> ?prim c}"
    unfolding prim .
  have "distinct (map id_c (sort_key createdAt (filter ?prim (sort_key createdAt (filter Q rs)))))"
    unfolding distinct_ids_sort_key
    by (intro distinct_map_filter) (simp add: distinct_ids_sort_key distinct_map_filter dist)
  then have "distinct (map id_c (P # others))"
    unfolding prim .
  then have P_notin: "id_c P \<notin> id_c ` set others" by simp
  have P_in: "P \<in> set rs" and "Q P" and "?prim P"
    using set_eq by auto
  have drs: "distinct rs"
    using dist by (simp add: distinct_map)
  have key: "(Q (?g c) \<and> ?prim (?g c)) = (c = P)" if "c \<in> set rs" for c
  proof (cases "id_c c \<in> id_c ` set others")
    case True
    then have "c \<noteq> P" using P_notin by auto
    with True show ?thesis by simp
  next
    case False
    then have "c \<notin> set others" by auto
    then have "(c \<in> set (P # others)) = (c = P)" by auto
    then have "(Q c \<and> ?prim c) = (c = P)"
      using that unfolding set_eq by auto
    with False show ?thesis by auto
  qed
  have "filter ?prim (filter Q ns) = []"
    using ns by (induction ns) auto
  moreover have "filter ?prim (filter Q (map ?g rs)) =
      map ?g (filter (\<lambda>c. Q (?g c) \<and> ?prim (?g c)) rs)"
    by (simp only: filter_filter filter_map o_def)
  moreover have "filter (\<lambda>c. Q (?g c) \<and> ?prim (?g c)) rs = filter (\<lambda>c. c = P) rs"
    by (rule filter_cong [OF refl]) (rule key)
  moreover have "filter (\<lambda>c. c = P) rs = [P]"
    using drs P_in by (rule filter_eq_singleton)
  moreover have "?g P = P"
    using P_notin by simp
  ultimately show ?thesis by simp
qed

lemma sort_key_eq_Nil [simp]: "(sort_key f xs = []) = (xs = [])"
  by (metis length_0_conv length_sort)

lemma first_occurrences_singleton_if:
  "first_occurrences [] (singleton_if s) = singleton_if s"
  by (auto simp: singleton_if_def split: option.splits)

lemma has_new_append:
  assumes "truthy e \<or> truthy p"
  shows "\<not> has_new e p \<lparr>rows = rs @ [\<lparr>id_c = i, email = or_null e, phoneNumber = or_null p,
      linkedId = l, linkPrecedence = lp, createdAt = t, updatedAt = u, deletedAt = None\<rparr>],
      next_id = n\<rparr>"
  by (auto simp: has_new_def live_emails_def live_phones_def or_null_truthy)

text \<open>
  C5. On a well-formed table (every reachable table is one, by \<open>reachable_wf\<close>),
  a second call with the arguments of a successful call, made on the table that call
  left, returns the same view (the same \<open>primaryContactId\<close>, emails and phone
  numbers) and leaves the table as it is: it creates no contact and changes none.
\<close>

theorem identifyContact_idempotent:
  assumes wf: "wf_store st"
    and first: "identifyContact now reqEmail reqPhone st = (Inr v, st1)"
  shows "identifyContact now' reqEmail reqPhone st1 = (Inr v, st1)"
proof -
  let ?match = "\<lambda>c. deletedAt c = None \<and>
      ((truthy reqEmail \<and> email c = reqEmail) \<or> (truthy reqPhone \<and> phoneNumber c = reqPhone))"
  let ?prim = "\<lambda>c. linkPrecedence c = Primary"
  let ?M = "findContactsByEmailOrPhone reqEmail reqPhone st"
  have valid: "truthy reqEmail \<or> truthy reqPhone"
  proof (rule ccontr)
    assume "\<not> (truthy reqEmail \<or> truthy reqPhone)"
    then have "identifyContact now reqEmail reqPhone st = (Inl InvalidRequest, st)"
      by (simp add: identifyContact_def)
    with first show False by simp
  qed
  have dist: "distinct (map id_c (rows st))"
    using wf by (simp add: wf_store_def)
  show ?thesis
  proof (cases "?M = []")
    case True
    let ?C = "\<lparr>id_c = next_id st, email = or_null reqEmail, phoneNumber = or_null reqPhone,
      linkedId = None, linkPrecedence = Primary, createdAt = now, updatedAt = now,
      deletedAt = None\<rparr>"
    from identifyContact_new [OF valid True, of now] first
    have v: "v = \<lparr>primaryContactId = next_id st, emails = singleton_if reqEmail,
        phoneNumbers = singleton_if reqPhone, secondaryContactIds = []\<rparr>"
      and st1: "st1 = \<lparr>rows = rows st @ [?C], next_id = Suc (next_id st)\<rparr>"
      by simp_all
    have none: "filter ?match (rows st) = []"
      using True by (simp add: findContactsByEmailOrPhone_def)
    have C_match: "?match ?C"
      using valid by (auto simp: or_null_truthy)
    have M1: "findContactsByEmailOrPhone reqEmail reqPhone st1 = [?C]"
      unfolding findContactsByEmailOrPhone_def st1 using none C_match by simp
    have "list_all (\<lambda>c. id_c c \<noteq> next_id st \<and> linkedId c \<noteq> Some (next_id st)) (rows st)"
      using wf by (auto simp: wf_store_def list_all_iff split: option.splits)
    then have "filter (\<lambda>c. (id_c c = next_id st \<or> linkedId c = Some (next_id st)) \<and>
        deletedAt c = None) (rows st) = []"
      by (auto simp: filter_empty_conv list_all_iff)
    then have linked: "findLinkedContacts (next_id st) st1 = [?C]"
      unfolding findLinkedContacts_def st1 by simp
    have new: "\<not> has_new reqEmail reqPhone st1"
      unfolding st1 using valid by (rule has_new_append)
    have "identifyContact now' reqEmail reqPhone st1 =
        (buildConsolidatedResponse (findLinkedContacts (id_c ?C) st1), st1)"
      using identifyContact_matched [of reqEmail reqPhone st1 ?C "[]" now'] valid new
      unfolding M1 by (simp add: demote_all_def)
    also have "\<dots> = (Inr v, st1)"
      by (simp add: linked v buildConsolidatedResponse_Cons values_of_def
          first_occurrences_singleton_if)
    finally show ?thesis .
  next
    case matched: False
    show ?thesis
    proof (cases "sort_key createdAt (filter ?prim ?M)")
      case Nil
      from identifyContact_no_primary [OF valid matched Nil, of now] first
      show ?thesis by simp
    next
      case (Cons P others)
      let ?g = "\<lambda>c. if id_c c \<in> id_c ` set others then demoted now (id_c P) c else c"
      let ?N = "\<lparr>id_c = next_id st, email = or_null reqEmail, phoneNumber = or_null reqPhone,
        linkedId = Some (id_c P), linkPrecedence = Secondary, createdAt = now, updatedAt = now,
        deletedAt = None\<rparr>"
      let ?ns = "if has_new reqEmail reqPhone st then [?N] else []"
      from identifyContact_matched [OF valid matched Cons, of now] first
      have res: "buildConsolidatedResponse (findLinkedContacts (id_c P) st1) = Inr v"
        and st1: "st1 = \<lparr>rows = map ?g (rows st) @ ?ns,
          next_id = (if has_new reqEmail reqPhone st then Suc (next_id st) else next_id st)\<rparr>"
        by (auto simp: Let_def createSecondaryContact_def demote_all_eq split: if_splits)
      have rows1: "rows st1 = map ?g (rows st) @ ?ns"
        unfolding st1 by simp
      have prim: "sort_key createdAt (filter ?prim (sort_key createdAt (filter ?match (rows st)))) =
          P # others"
        using Cons by (simp add: findContactsByEmailOrPhone_def)
      have alone: "filter ?prim (filter ?match (rows st1)) = [P]"
        unfolding rows1
        by (rule surviving_primary_alone [OF dist _ prim]) simp_all
      have prim1: "sort_key createdAt (filter ?prim
          (findContactsByEmailOrPhone reqEmail reqPhone st1)) = [P]"
        unfolding findContactsByEmailOrPhone_def filter_sort alone by simp
      then have matched1: "findContactsByEmailOrPhone reqEmail reqPhone st1 \<noteq> []"
        by auto
      have le: "live_emails st1 = live_emails st @ map email ?ns"
        unfolding live_emails_def rows1
        by (simp add: filter_map o_def if_distrib cong: if_cong)
      have lp: "live_phones st1 = live_phones st @ map phoneNumber ?ns"
        unfolding live_phones_def rows1
        by (simp add: filter_map o_def if_distrib cong: if_cong)
      have new: "\<not> has_new reqEmail reqPhone st1"
        unfolding has_new_def [of _ _ st1] le lp
        by (cases "has_new reqEmail reqPhone st") (auto simp: has_new_def or_null_truthy)
      have "identifyContact now' reqEmail reqPhone st1 =
          (buildConsolidatedResponse (findLinkedContacts (id_c P) st1), st1)"
        using identifyContact_matched [OF valid matched1 prim1, of now'] new
        by (simp add: demote_all_def)
      then show ?thesis
        unfolding res .
    qed
  qed
qed

text \<open>
  The theorem at \<open>store_two_primaries\<close>: the first call merges the two primaries, the
  second call returns the same view and changes nothing.
\<close>

theorem identifyContact_idempotent_witness:
  "wf_store store_two_primaries \<and>
   identifyContact 3 (Some ''a@x.com'') (Some ''222'') store_two_primaries =
     (Inr \<lparr>primaryContactId = 1, emails = [''a@x.com''], phoneNumbers = [''222''],
           secondaryContactIds = [2]\<rparr>,
      store_two_merged) \<and>
   identifyContact 4 (Some ''a@x.com'') (Some ''222'') store_two_merged =
     (Inr \<lparr>primaryContactId = 1, emails = [''a@x.com''], phoneNumbers = [''222''],
           secondaryContactIds = [2]\<rparr>,
      store_two_merged)"
proof -
  have wf: "wf_store store_two_primaries"
    by (simp add: wf_store_def store_two_primaries_def)
  have run: "identifyContact 3 (Some ''a@x.com'') (Some ''222'') store_two_primaries =
     (Inr \<lparr>primaryContactId = 1, emails = [''a@x.com''], phoneNumbers = [''222''],
           secondaryContactIds = [2]\<rparr>,
      store_two_merged)"
    by (simp add: store_two_primaries_def store_two_merged_def identify_defs)
  from identifyContact_idempotent [OF wf run, of 4] wf run
  show ?thesis by simp
qed

subsection \<open>Merges\<close>

text \<open>
  C1 does not hold of the code. The five calls of \<open>calls_chain\<close> succeed and leave
  \<open>store_chain\<close>, in which contact 3 is a secondary whose \<open>linkedId\<close> is 2, and
  contact 2 is a secondary itself: the demotion of a primary leaves the contacts
  linked to it as they are.
\<close>

theorem chain_breaks_one_hop:
  "identify_all calls_chain empty_store = Some store_chain \<and> \<not> one_hop store_chain"
  by (simp add: calls_chain_def store_chain_def identify_defs one_hop_def links_to_primary_def)

text \<open>
  C2 does not hold of the code. The primary 2 has the secondary 3 when the request
  for the email of 1 and the phone number of 2 demotes it. The call changes the row
  of contact 2 only: contact 3 keeps \<open>linkedId = 2\<close>, and neither the view returned
  nor a fresh read of the cluster of 1 has contact 3. This is so whether contact 3
  was created as a secondary of 2 (\<open>store_before_merge\<close>) or was a primary demoted
  under 2 (\<open>store_chain_before\<close>).
\<close>

theorem merge_leaves_dependents:
  "identify_all [(1, Some ''a@x.com'', Some ''111''), (2, Some ''b@x.com'', Some ''222''),
                 (3, Some ''b@x.com'', Some ''333'')] empty_store = Some store_before_merge \<and>
   identifyContact 4 (Some ''a@x.com'') (Some ''222'') store_before_merge =
     (Inr \<lparr>primaryContactId = 1, emails = [''a@x.com'', ''b@x.com''],
           phoneNumbers = [''111'', ''222''], secondaryContactIds = [2]\<rparr>,
      store_after_merge) \<and>
   map id_c (findLinkedContacts 1 store_after_merge) = [1, 2] \<and>
   map linkedId (rows store_after_merge) = [None, Some 1, Some 2] \<and>
   identify_all [(1, Some ''a@x.com'', Some ''111''), (2, Some ''b@x.com'', Some ''222''),
                 (3, Some ''c@x.com'', Some ''333''), (4, Some ''b@x.com'', Some ''333'')]
     empty_store = Some store_chain_before \<and>
   identifyContact 5 (Some ''a@x.com'') (Some ''222'') store_chain_before =
     (Inr \<lparr>primaryContactId = 1, emails = [''a@x.com'', ''b@x.com''],
           phoneNumbers = [''111'', ''222''], secondaryContactIds = [2]\<rparr>,
      store_chain) \<and>
   map id_c (findLinkedContacts 1 store_chain) = [1, 2] \<and>
   map linkedId (rows store_chain) = [None, Some 1, Some 2]"
  by (simp add: store_before_merge_def store_after_merge_def store_chain_before_def
      store_chain_def identify_defs)

text \<open>
  C3 does not hold of the code in its second half. The merging call demotes the
  later primary under the earlier one and returns the id of the earlier one. The
  call with the phone number alone then matches the demoted contact only, finds no
  primary among the matched contacts, and throws a \<open>TypeError\<close>.
\<close>

theorem merge_then_phone_only:
  "identify_all [(1, Some ''a@x.com'', None), (2, None, Some ''222'')] empty_store =
     Some store_two_primaries \<and>
   identifyContact 3 (Some ''a@x.com'') (Some ''222'') store_two_primaries =
     (Inr \<lparr>primaryContactId = 1, emails = [''a@x.com''], phoneNumbers = [''222''],
           secondaryContactIds = [2]\<rparr>,
      store_two_merged) \<and>
   identifyContact 4 None (Some ''222'') store_two_merged = (Inl TypeError, store_two_merged)"
  by (simp add: store_two_primaries_def store_two_merged_def identify_defs)

text \<open>
  C4 does not hold of the code. On a reachable table, a request whose phone number
  (or email) is held by a secondary only matches that secondary, the list of matched
  primaries is empty, and the call throws a \<open>TypeError\<close>, which is none of the error
  kinds of the specification. This is so for a secondary that was created as one
  (\<open>store_with_secondary\<close>) and for a demoted primary (\<open>store_pair_merged\<close>).
\<close>

theorem secondaries_only_matched:
  "identify_all [(1, Some ''a@x.com'', Some ''111''), (2, Some ''a@x.com'', Some ''222'')]
     empty_store = Some store_with_secondary \<and>
   findContactsByEmailOrPhone None (Some ''222'') store_with_secondary = [secondary_a222] \<and>
   identifyContact 3 None (Some ''222'') store_with_secondary =
     (Inl TypeError, store_with_secondary) \<and>
   identify_all [(1, Some ''a@x.com'', Some ''111''), (2, Some ''b@x.com'', Some ''222''),
                 (3, Some ''a@x.com'', Some ''222'')] empty_store = Some store_pair_merged \<and>
   map id_c (findContactsByEmailOrPhone (Some ''b@x.com'') None store_pair_merged) = [2] \<and>
   identifyContact 4 (Some ''b@x.com'') None store_pair_merged =
     (Inl TypeError, store_pair_merged)"
  by (simp add: store_with_secondary_def secondary_a222_def store_pair_merged_def
      identify_defs)

end
